theory Spec2Isabelle
  imports Complex_Main
begin

section \<open>JavaScript numbers\<close>

text \<open>
  A JavaScript number is an IEEE 754 double. Numbers that count things (steps, resources,
  experience, scores) are modelled as \<open>int\<close>: their sums and differences are exact
  below \<open>2 ^ 53\<close>. A number that can have a fraction is a \<open>real\<close> whose value is that
  of the double, and the result of a division, a product or a sum that can leave the
  integers is rounded to the nearest double, a tie going to the even significand:
  \<open>fl\<close>. A result of magnitude \<open>2 ^ 1024\<close> or more is \<open>Infinity\<close> in JavaScript
  (\<open>overflows\<close>).
\<close>

definition pow2 :: "int \<Rightarrow> real" where
  "pow2 e = (if 0 \<le> e then 2 ^ nat e else 1 / 2 ^ nat (- e))"

text \<open>
  The binary exponent of a positive number: how often it can be halved down to below 2,
  or must be doubled up to 1. The bound on the number of steps caps the exponent at
  1024 and at -1022, the exponent of the subnormal doubles.
\<close>

fun binade_up :: "nat \<Rightarrow> real \<Rightarrow> int" where
  "binade_up 0 x = 0"
| "binade_up (Suc n) x = (if 2 \<le> x then binade_up n (x / 2) + 1 else 0)"

fun binade_down :: "nat \<Rightarrow> real \<Rightarrow> int" where
  "binade_down 0 x = 0"
| "binade_down (Suc n) x = (if x < 1 then binade_down n (2 * x) - 1 else 0)"

definition exponent :: "real \<Rightarrow> int" where
  "exponent x = (if 1 \<le> \<bar>x\<bar> then binade_up 1024 \<bar>x\<bar> else binade_down 1022 \<bar>x\<bar>)"

text \<open>The nearest integer, a tie going to the even one.\<close>

definition rne :: "real \<Rightarrow> int" where
  "rne y =
     (let f = \<lfloor>y\<rfloor>; d = y - real_of_int f
      in if d < 1 / 2 then f
         else if 1 / 2 < d then f + 1
         else if even f then f else f + 1)"

text \<open>The nearest double: the nearest multiple of the unit in the last of 53 bits.\<close>

definition fl :: "real \<Rightarrow> real" where
  "fl x = (let ulp = pow2 (exponent x - 52) in ulp * real_of_int (rne (x / ulp)))"


text \<open>
  \<open>Math.round\<close> of a double: the nearest integer, a tie going up. It is exact.
\<close>

definition Math_round :: "real \<Rightarrow> int" where
  "Math_round x = \<lfloor>x + 1 / 2\<rfloor>"

section \<open>The progression ledger (src/store/gameStore.ts)\<close>

text \<open>
  Record fields carry a prefix where two interfaces share a field name. The diet score
  is the only field of the state with a fraction.
\<close>

record Resident =
  r_id :: string
  r_name :: string
  r_emoji :: string
  r_arrivalDate :: string

datatype building_type = House | Cafe | Farm | Garden | Fountain

record Building =
  b_id :: string
  b_type :: building_type
  b_name :: string
  b_emoji :: string
  b_unlockLevel :: int

record QuizRecord =
  q_question :: string
  q_answer :: string
  q_correct :: bool
  q_timestamp :: int

record GameState =
  steps :: int
  walkGoal :: int
  quizHistory :: "QuizRecord list"
  dietScore :: real
  lastAnalyzedFoods :: "string list"
  villageLevel :: nat
  villageExp :: int
  residents :: "Resident list"
  buildings :: "Building list"
  fertilizer :: int
  landscapeItems :: int
  cafeScore :: int
  cafeStreak :: int
  streakDays :: int

subsection \<open>Level thresholds and calcVillageLevel\<close>

text \<open>The table maps a level to a number that may be \<open>Infinity\<close> (key 10).\<close>

datatype threshold = Finite int | Infinity

definition LEVEL_EXP_THRESHOLDS :: "nat \<rightharpoonup> threshold" where
  "LEVEL_EXP_THRESHOLDS =
     [1 \<mapsto> Finite 100, 2 \<mapsto> Finite 250, 3 \<mapsto> Finite 500, 4 \<mapsto> Finite 900,
      5 \<mapsto> Finite 1500, 6 \<mapsto> Finite 2400, 7 \<mapsto> Finite 3700, 8 \<mapsto> Finite 5500,
      9 \<mapsto> Finite 8000, 10 \<mapsto> Infinity]"

text \<open>\<open>exp >= t\<close> for a table entry \<open>t\<close>.\<close>

fun reaches :: "int \<Rightarrow> threshold \<Rightarrow> bool" where
  "reaches e (Finite t) = (t \<le> e)"
| "reaches e Infinity = False"

text \<open>\<open>LEVEL_EXP_THRESHOLDS[k] ?? 0\<close>: a missing key reads as 0.\<close>

definition threshold_or_zero :: "nat \<Rightarrow> threshold" where
  "threshold_or_zero k = (case LEVEL_EXP_THRESHOLDS k of None \<Rightarrow> Finite 0 | Some t \<Rightarrow> t)"

text \<open>
  The \<open>for (lv = 1; lv <= 10; lv++)\<close> loop with its \<open>break\<close>: \<open>lv\<close> is the loop
  variable, \<open>level\<close> the value assigned so far.
\<close>

function calcVillageLevel_loop :: "int \<Rightarrow> nat \<Rightarrow> nat \<Rightarrow> nat" where
  "calcVillageLevel_loop e lv level =
     (if lv \<le> 10
      then (if reaches e (threshold_or_zero (lv - 1))
            then calcVillageLevel_loop e (lv + 1) lv
            else level)
      else level)"
  by pat_completeness auto
termination
  by (relation "measure (\<lambda>(e, lv, level). 11 - lv)") auto

declare calcVillageLevel_loop.simps [simp del]

definition calcVillageLevel :: "int \<Rightarrow> nat" where
  "calcVillageLevel e = min (calcVillageLevel_loop e 1 1) 10"

subsection \<open>The store: initial state and actions\<close>

definition initialState :: GameState where
  "initialState =
     \<lparr> steps = 0, walkGoal = 5000, quizHistory = [],
       dietScore = 0, lastAnalyzedFoods = [],
       villageLevel = 1, villageExp = 0, residents = [], buildings = [],
       fertilizer = 0, landscapeItems = 0,
       cafeScore = 0, cafeStreak = 0,
       streakDays = 0 \<rparr>"

definition setSteps :: "int \<Rightarrow> GameState \<Rightarrow> GameState" where
  "setSteps n s = s\<lparr>steps := n\<rparr>"

definition addQuizRecord :: "QuizRecord \<Rightarrow> GameState \<Rightarrow> GameState" where
  "addQuizRecord r s = s\<lparr>quizHistory := quizHistory s @ [r]\<rparr>"

definition setDietScore :: "real \<Rightarrow> string list \<Rightarrow> GameState \<Rightarrow> GameState" where
  "setDietScore score foods s = s\<lparr>dietScore := score, lastAnalyzedFoods := foods\<rparr>"

definition addFertilizer :: "int \<Rightarrow> GameState \<Rightarrow> GameState" where
  "addFertilizer amount s = s\<lparr>fertilizer := fertilizer s + amount\<rparr>"

definition useFertilizer :: "int \<Rightarrow> GameState \<Rightarrow> GameState" where
  "useFertilizer amount s = s\<lparr>fertilizer := max 0 (fertilizer s - amount)\<rparr>"

definition addLandscapeItems :: "int \<Rightarrow> GameState \<Rightarrow> GameState" where
  "addLandscapeItems amount s = s\<lparr>landscapeItems := landscapeItems s + amount\<rparr>"

definition addResident :: "Resident \<Rightarrow> GameState \<Rightarrow> GameState" where
  "addResident r s = s\<lparr>residents := residents s @ [r]\<rparr>"

definition unlockBuilding :: "Building \<Rightarrow> GameState \<Rightarrow> GameState" where
  "unlockBuilding b s =
     (if find (\<lambda>x. b_id x = b_id b) (buildings s) \<noteq> None then s
      else s\<lparr>buildings := buildings s @ [b]\<rparr>)"

definition addVillageExp :: "int \<Rightarrow> GameState \<Rightarrow> GameState" where
  "addVillageExp e s =
     (let newExp = villageExp s + e;
          newLevel = calcVillageLevel newExp
      in s\<lparr>villageExp := newExp, villageLevel := newLevel\<rparr>)"

definition addCafeScore :: "int \<Rightarrow> GameState \<Rightarrow> GameState" where
  "addCafeScore points s =
     s\<lparr>cafeScore := cafeScore s + points, cafeStreak := cafeStreak s + 1\<rparr>"

definition resetCafeSession :: "GameState \<Rightarrow> GameState" where
  "resetCafeSession s = s\<lparr>cafeStreak := 0\<rparr>"

definition incrementStreak :: "GameState \<Rightarrow> GameState" where
  "incrementStreak s = s\<lparr>streakDays := streakDays s + 1\<rparr>"

definition resetDailyStats :: "GameState \<Rightarrow> GameState" where
  "resetDailyStats s =
     s\<lparr>steps := 0, quizHistory := [], dietScore := 0, lastAnalyzedFoods := [],
       cafeScore := 0, cafeStreak := 0\<rparr>"

text \<open>One call on the store's mutation surface, and a sequence of such calls.\<close>

datatype ledger_op =
    SetSteps int
  | AddQuizRecord QuizRecord
  | SetDietScore real "string list"
  | AddFertilizer int
  | UseFertilizer int
  | AddLandscapeItems int
  | AddResident Resident
  | UnlockBuilding Building
  | AddVillageExp int
  | AddCafeScore int
  | ResetCafeSession
  | IncrementStreak
  | ResetDailyStats

fun apply_op :: "GameState \<Rightarrow> ledger_op \<Rightarrow> GameState" where
  "apply_op s (SetSteps n) = setSteps n s"
| "apply_op s (AddQuizRecord r) = addQuizRecord r s"
| "apply_op s (SetDietScore score foods) = setDietScore score foods s"
| "apply_op s (AddFertilizer a) = addFertilizer a s"
| "apply_op s (UseFertilizer a) = useFertilizer a s"
| "apply_op s (AddLandscapeItems a) = addLandscapeItems a s"
| "apply_op s (AddResident r) = addResident r s"
| "apply_op s (UnlockBuilding b) = unlockBuilding b s"
| "apply_op s (AddVillageExp e) = addVillageExp e s"
| "apply_op s (AddCafeScore p) = addCafeScore p s"
| "apply_op s ResetCafeSession = resetCafeSession s"
| "apply_op s IncrementStreak = incrementStreak s"
| "apply_op s ResetDailyStats = resetDailyStats s"

definition run_ops :: "GameState \<Rightarrow> ledger_op list \<Rightarrow> GameState" where
  "run_ops s ops = foldl apply_op s ops"

text \<open>The amount an operation adds or spends, where it has one.\<close>

fun op_amount :: "ledger_op \<Rightarrow> int" where
  "op_amount (AddFertilizer a) = a"
| "op_amount (UseFertilizer a) = a"
| "op_amount (AddLandscapeItems a) = a"
| "op_amount _ = 0"

subsection \<open>Selectors\<close>

definition selectWalkGoalReached :: "GameState \<Rightarrow> bool" where
  "selectWalkGoalReached s = (walkGoal s \<le> steps s)"


section \<open>Reward calculation (src/services/healthService.ts)\<close>

definition calcFertilizer :: "real \<Rightarrow> int" where
  "calcFertilizer mindScore =
     (if 8 \<le> mindScore then 5
      else if 6 \<le> mindScore then 3
      else if 4 \<le> mindScore then 2
      else if 2 \<le> mindScore then 1
      else 0)"

definition calcLandscapeItems :: "int \<Rightarrow> int" where
  "calcLandscapeItems n =
     (if 10000 \<le> n then 3
      else if 7000 \<le> n then 2
      else if 5000 \<le> n then 1
      else 0)"

section \<open>The pedometer service (src/services/pedometerService.ts)\<close>

definition WALK_GOAL :: int where "WALK_GOAL = 5000"
definition QUIZ_INTERVAL :: int where "QUIZ_INTERVAL = 1000"
definition REWARD_MILESTONE :: int where "REWARD_MILESTONE = 5000"

text \<open>
  A quiz of the built-in catalogue. The Korean texts of the source are given as English
  glosses; the optional hint, a text only, is left out.
\<close>

record WalkQuiz =
  wq_id :: string
  wq_question :: string
  wq_choices :: "string list"
  wq_answer :: string

definition FALLBACK_QUIZZES :: "WalkQuiz list" where
  "FALLBACK_QUIZZES =
     [ \<lparr> wq_id = ''q1'', wq_question = ''capital of Korea'',
         wq_choices = [''Busan'', ''Seoul'', ''Daegu'', ''Incheon''], wq_answer = ''Seoul'' \<rparr>,
       \<lparr> wq_id = ''q2'', wq_question = ''apple in English'',
         wq_choices = [''Banana'', ''Orange'', ''Apple'', ''Grape''], wq_answer = ''Apple'' \<rparr>,
       \<lparr> wq_id = ''q3'', wq_question = ''season after autumn'',
         wq_choices = [''spring'', ''summer'', ''autumn'', ''winter''], wq_answer = ''winter'' \<rparr>,
       \<lparr> wq_id = ''q4'', wq_question = ''5 times 7'',
         wq_choices = [''30'', ''35'', ''40'', ''45''], wq_answer = ''35'' \<rparr>,
       \<lparr> wq_id = ''q5'', wq_question = ''colour of the sky'',
         wq_choices = [''red'', ''yellow'', ''blue'', ''green''], wq_answer = ''blue'' \<rparr>,
       \<lparr> wq_id = ''q6'', wq_question = ''months in a year'',
         wq_choices = [''10'', ''11'', ''12'', ''13''], wq_answer = ''12'' \<rparr>,
       \<lparr> wq_id = ''q7'', wq_question = ''sound of a dog'',
         wq_choices = [''meow'', ''woof'', ''moo'', ''cock-a-doodle-doo''], wq_answer = ''woof'' \<rparr>,
       \<lparr> wq_id = ''q8'', wq_question = ''colours of the rainbow'',
         wq_choices = [''5'', ''6'', ''7'', ''8''], wq_answer = ''7'' \<rparr> ]"

record StepUpdatePayload =
  p_steps :: int
  p_progress :: int
  p_goalReached :: bool
  p_quizTrigger :: bool

text \<open>The private fields of the service that the modelled methods read or write.\<close>

record PedometerService =
  currentSteps :: int
  lastQuizMilestone :: int
  usedQuizIds :: "string set"

definition newPedometerService :: PedometerService where
  "newPedometerService = \<lparr> currentSteps = 0, lastQuizMilestone = 0, usedQuizIds = {} \<rparr>"

text \<open>
  \<open>_handleStepUpdate\<close>: the result is the service after the call, the argument of the
  quiz callback when it is called, and the payload given to the step callback.
\<close>

definition handleStepUpdate ::
    "int \<Rightarrow> PedometerService \<Rightarrow> PedometerService \<times> int option \<times> StepUpdatePayload" where
  "handleStepUpdate n p =
     (let progress = min (Math_round (fl (fl (real_of_int n / real_of_int WALK_GOAL) * 100))) 100;
          goalReached = (REWARD_MILESTONE \<le> n);
          currentMilestone = (n div QUIZ_INTERVAL) * QUIZ_INTERVAL;
          quizTrigger = (lastQuizMilestone p < currentMilestone \<and> 0 < currentMilestone);
          payload = \<lparr> p_steps = n, p_progress = progress,
                      p_goalReached = goalReached, p_quizTrigger = quizTrigger \<rparr>
      in if quizTrigger
         then (p\<lparr>lastQuizMilestone := currentMilestone\<rparr>, Some currentMilestone, payload)
         else (p, None, payload))"

text \<open>
  The subscription callback of \<open>startTracking\<close> stores the reading and handles it.
\<close>

definition watchStepCount_callback ::
    "int \<Rightarrow> PedometerService \<Rightarrow> PedometerService \<times> int option \<times> StepUpdatePayload" where
  "watchStepCount_callback n p = handleStepUpdate n (p\<lparr>currentSteps := n\<rparr>)"

text \<open>A sequence of sensor readings, with the milestones fired, oldest first.\<close>

fun observe_all :: "PedometerService \<Rightarrow> int list \<Rightarrow> PedometerService \<times> int list" where
  "observe_all p [] = (p, [])"
| "observe_all p (n # ns) =
     (case watchStepCount_callback n p of
        (p', fired, payload) \<Rightarrow>
          (case observe_all p' ns of
             (p'', rest) \<Rightarrow> (p'', (case fired of None \<Rightarrow> [] | Some m \<Rightarrow> [m]) @ rest)))"

text \<open>
  \<open>getRandomQuiz\<close>. The first argument is the value of \<open>Math.random()\<close>, a double
  \<open>u\<close> with \<open>0 \<le> u < 1\<close>, that is, at most \<open>1 - 1 / 2 ^ 53\<close>, so that the
  index read is below the length of \<open>available\<close>.
\<close>

definition getRandomQuiz :: "real \<Rightarrow> PedometerService \<Rightarrow> WalkQuiz \<times> PedometerService" where
  "getRandomQuiz u p =
     (let available = filter (\<lambda>q. wq_id q \<notin> usedQuizIds p) FALLBACK_QUIZZES
      in if length available = 0
         then (FALLBACK_QUIZZES ! 0, p\<lparr>usedQuizIds := {}\<rparr>)
         else
           let quiz = available ! nat \<lfloor>fl (u * real (length available))\<rfloor>
           in (quiz, p\<lparr>usedQuizIds := insert (wq_id quiz) (usedQuizIds p)\<rparr>))"

text \<open>Successive draws, one random number each, oldest first.\<close>

fun draw_all :: "real list \<Rightarrow> PedometerService \<Rightarrow> WalkQuiz list \<times> PedometerService" where
  "draw_all [] p = ([], p)"
| "draw_all (u # us) p =
     (case getRandomQuiz u p of
        (q, p') \<Rightarrow> (case draw_all us p' of (qs, p'') \<Rightarrow> (q # qs, p'')))"

definition resetDaily :: "PedometerService \<Rightarrow> PedometerService" where
  "resetDaily p = p\<lparr>currentSteps := 0, lastQuizMilestone := 0, usedQuizIds := {}\<rparr>"

text \<open>The service after eight draws from a new one: every quiz has been used.\<close>

definition exhausted :: PedometerService where
  "exhausted = snd (draw_all [0, 0, 0, 0, 0, 0, 0, 0] newPedometerService)"

section \<open>The walk tab (app/(tabs)/walk.tsx)\<close>

datatype QuizState =
    QuizIdle
  | QuizPlaying WalkQuiz
  | QuizAnswered WalkQuiz string bool

text \<open>
  The component's state with the two objects it drives: the pedometer service (with
  whether its subscription is live) and the store. \<open>wt_rewardGiven\<close> is
  \<open>rewardGivenRef.current\<close>; \<open>wt_alerts\<close> counts the goal alerts shown.
\<close>

record WalkTab =
  wt_available :: bool
  wt_isTracking :: bool
  wt_rewardGiven :: bool
  wt_quizState :: QuizState
  wt_subscribed :: bool
  wt_pedometer :: PedometerService
  wt_store :: GameState
  wt_alerts :: nat

definition startTracking :: "WalkTab \<Rightarrow> WalkTab" where
  "startTracking s =
     (if \<not> wt_available s then s
      else s\<lparr>wt_isTracking := True, wt_rewardGiven := False, wt_subscribed := True\<rparr>)"

definition stopTracking :: "WalkTab \<Rightarrow> WalkTab" where
  "stopTracking s = s\<lparr>wt_subscribed := False, wt_isTracking := False, wt_quizState := QuizIdle\<rparr>"

text \<open>\<open>triggerQuiz\<close> draws a quiz; \<open>u\<close> is the random number of the draw.\<close>

definition triggerQuiz :: "real \<Rightarrow> WalkTab \<Rightarrow> WalkTab" where
  "triggerQuiz u s =
     (case getRandomQuiz u (wt_pedometer s) of
        (quiz, p') \<Rightarrow> s\<lparr>wt_pedometer := p', wt_quizState := QuizPlaying quiz\<rparr>)"

text \<open>The step callback that \<open>startTracking\<close> gives to the service.\<close>

definition stepCallback :: "StepUpdatePayload \<Rightarrow> WalkTab \<Rightarrow> WalkTab" where
  "stepCallback payload s =
     (let s1 = s\<lparr>wt_store := setSteps (p_steps payload) (wt_store s)\<rparr>
      in if p_goalReached payload \<and> \<not> wt_rewardGiven s1
         then s1\<lparr>wt_rewardGiven := True,
                 wt_store := addLandscapeItems 1 (wt_store s1),
                 wt_alerts := wt_alerts s1 + 1\<rparr>
         else s1)"

text \<open>
  One sensor reading delivered to a live subscription: the service handles it, calls the
  quiz callback on a milestone and then the step callback.
\<close>

definition sensorTick :: "int \<Rightarrow> real \<Rightarrow> WalkTab \<Rightarrow> WalkTab" where
  "sensorTick n u s =
     (if \<not> wt_subscribed s then s
      else
        (case watchStepCount_callback n (wt_pedometer s) of
           (p', fired, payload) \<Rightarrow>
             (let s1 = s\<lparr>wt_pedometer := p'\<rparr>;
                  s2 = (case fired of None \<Rightarrow> s1 | Some m \<Rightarrow> triggerQuiz u s1)
              in stepCallback payload s2)))"

fun run_ticks :: "WalkTab \<Rightarrow> (int \<times> real) list \<Rightarrow> WalkTab" where
  "run_ticks s [] = s"
| "run_ticks s ((n, u) # ts) = run_ticks (sensorTick n u s) ts"

definition newWalkTab :: WalkTab where
  "newWalkTab =
     \<lparr> wt_available = True, wt_isTracking = False, wt_rewardGiven = False,
       wt_quizState = QuizIdle, wt_subscribed = False,
       wt_pedometer = newPedometerService, wt_store = initialState, wt_alerts = 0 \<rparr>"

section \<open>The walk screen (src/screens/WalkScreen.tsx)\<close>

datatype WalkPhase = PhIdle | PhWalking | PhQuiz | PhResult | PhComplete

definition MOCK_QUIZZES :: "WalkQuiz list" where
  "MOCK_QUIZZES =
     [ \<lparr> wq_id = ''q1'', wq_question = ''capital of Korea'',
         wq_choices = [''Seoul'', ''Busan'', ''Daegu'', ''Incheon''], wq_answer = ''Seoul'' \<rparr>,
       \<lparr> wq_id = ''q2'', wq_question = ''colour of an apple'',
         wq_choices = [''blue'', ''red'', ''yellow'', ''purple''], wq_answer = ''red'' \<rparr>,
       \<lparr> wq_id = ''q3'', wq_question = ''1 plus 1'',
         wq_choices = [''1'', ''2'', ''3'', ''4''], wq_answer = ''2'' \<rparr>,
       \<lparr> wq_id = ''q4'', wq_question = ''flower of spring'',
         wq_choices = [''chrysanthemum'', ''cosmos'', ''cherry blossom'', ''sunflower''],
         wq_answer = ''cherry blossom'' \<rparr> ]"

text \<open>
  A call of \<open>handleWalkComplete\<close> whose \<open>completeWalk\<close> request has not settled: the
  value of \<open>player.landscapeItems\<close> in the callback's closure, and its argument.
\<close>

record pending_complete =
  pc_landscapeItems :: int
  pc_finalSteps :: int

text \<open>
  The component: the sensor reading of \<open>usePedometer\<close>, the fields of the app store it
  uses, its \<open>useState\<close> variables, the work in flight (result timers, completion
  requests), and for each of its two effects the values of its dependency list at its
  last run (\<open>None\<close> before the first render).
\<close>

record WalkScreenState =
  ws_steps :: int
  ws_landscapeItems :: int
  ws_walkSteps :: int
  ws_walkGoal :: int
  ws_phase :: WalkPhase
  ws_sessionSteps :: int
  ws_startSteps :: int
  ws_quizList :: "WalkQuiz list"
  ws_currentQuizIdx :: nat
  ws_selectedChoice :: "string option"
  ws_lastQuizCorrect :: "bool option"
  ws_correctCount :: nat
  ws_resultTimers :: nat
  ws_completions :: "pending_complete list"
  ws_stepDeps :: "(int \<times> WalkPhase) option"
  ws_quizDeps :: "(int \<times> WalkPhase \<times> WalkQuiz list) option"

text \<open>
  An effect or handler reads the values of the render that created it (\<open>snap\<close>) and
  queues state updates, applied in call order to \<open>acc\<close>; the next render sees them.
\<close>

definition handleWalkComplete :: "WalkScreenState \<Rightarrow> int \<Rightarrow> WalkScreenState \<Rightarrow> WalkScreenState" where
  "handleWalkComplete snap finalSteps acc =
     acc\<lparr>ws_phase := PhComplete,
         ws_completions := ws_completions acc @
           [\<lparr> pc_landscapeItems = ws_landscapeItems snap, pc_finalSteps = finalSteps \<rparr>]\<rparr>"

text \<open>The effect with dependencies \<open>[steps, phase]\<close>.\<close>

definition stepEffect :: "WalkScreenState \<Rightarrow> WalkScreenState \<Rightarrow> WalkScreenState" where
  "stepEffect snap acc =
     (if ws_phase snap = PhWalking \<or> ws_phase snap = PhQuiz \<or> ws_phase snap = PhResult
      then
        (let current = max 0 (ws_steps snap - ws_startSteps snap);
             acc1 = acc\<lparr>ws_sessionSteps := current, ws_walkSteps := current\<rparr>
         in if ws_walkGoal snap \<le> current \<and> ws_phase snap \<noteq> PhComplete
            then handleWalkComplete snap current acc1
            else acc1)
      else acc)"

text \<open>The effect with dependencies \<open>[sessionSteps, phase, quizList]\<close>.\<close>

definition quizEffect :: "WalkScreenState \<Rightarrow> WalkScreenState \<Rightarrow> WalkScreenState" where
  "quizEffect snap acc =
     (if ws_phase snap = PhWalking \<and> 0 < length (ws_quizList snap)
         \<and> 0 < ws_sessionSteps snap \<and> ws_sessionSteps snap mod 500 = 0
      then
        (let quizIdx = nat (ws_sessionSteps snap div 500 - 1)
         in acc\<lparr>ws_currentQuizIdx := quizIdx mod length (ws_quizList snap),
                ws_selectedChoice := None, ws_lastQuizCorrect := None,
                ws_phase := PhQuiz\<rparr>)
      else acc)"

text \<open>
  After a render, the effects whose dependencies changed run in the order of their
  declaration, all on the values of that render.
\<close>

definition effects_pending :: "WalkScreenState \<Rightarrow> bool" where
  "effects_pending s =
     (ws_stepDeps s \<noteq> Some (ws_steps s, ws_phase s)
      \<or> ws_quizDeps s \<noteq> Some (ws_sessionSteps s, ws_phase s, ws_quizList s))"

definition render_pass :: "WalkScreenState \<Rightarrow> WalkScreenState" where
  "render_pass s =
     (let runStep = (ws_stepDeps s \<noteq> Some (ws_steps s, ws_phase s));
          runQuiz = (ws_quizDeps s \<noteq> Some (ws_sessionSteps s, ws_phase s, ws_quizList s));
          acc0 = s\<lparr>ws_stepDeps := Some (ws_steps s, ws_phase s),
                   ws_quizDeps := Some (ws_sessionSteps s, ws_phase s, ws_quizList s)\<rparr>;
          acc1 = (if runStep then stepEffect s acc0 else acc0);
          acc2 = (if runQuiz then quizEffect s acc1 else acc1)
      in acc2)"

text \<open>
  Renders follow one another until no effect is pending; the first argument bounds
  their number, and \<open>None\<close> says the bound was reached.
\<close>

fun settle :: "nat \<Rightarrow> WalkScreenState \<Rightarrow> WalkScreenState option" where
  "settle 0 s = (if effects_pending s then None else Some s)"
| "settle (Suc k) s = (if effects_pending s then settle k (render_pass s) else Some s)"

definition handleStartWalk :: "WalkQuiz option \<Rightarrow> WalkScreenState \<Rightarrow> WalkScreenState" where
  "handleStartWalk fetched s =
     s\<lparr>ws_startSteps := ws_steps s, ws_sessionSteps := 0, ws_phase := PhWalking,
       ws_quizList := (case fetched of None \<Rightarrow> MOCK_QUIZZES | Some q \<Rightarrow> q # MOCK_QUIZZES)\<rparr>"

definition handleSelectChoice :: "string \<Rightarrow> WalkScreenState \<Rightarrow> WalkScreenState" where
  "handleSelectChoice choice s =
     (if ws_selectedChoice s \<noteq> None then s
      else
        (let quiz = ws_quizList s ! ws_currentQuizIdx s;
             correct = (choice = wq_answer quiz)
         in s\<lparr>ws_selectedChoice := Some choice,
              ws_lastQuizCorrect := Some correct,
              ws_correctCount := (if correct then ws_correctCount s + 1 else ws_correctCount s),
              ws_phase := PhResult,
              ws_resultTimers := ws_resultTimers s + 1\<rparr>))"

text \<open>The callback of the 2500 ms timer set by \<open>handleSelectChoice\<close>.\<close>

definition resultTimeout :: "WalkScreenState \<Rightarrow> WalkScreenState" where
  "resultTimeout s =
     s\<lparr>ws_resultTimers := ws_resultTimers s - 1, ws_phase := PhWalking,
       ws_selectedChoice := None, ws_lastQuizCorrect := None\<rparr>"

text \<open>
  The rest of \<open>handleWalkComplete\<close>, after its \<open>await\<close>: the request succeeded
  (\<open>ok\<close>) or threw, and the reward is added to the landscape items of the closure.
\<close>

definition completeSettled :: "bool \<Rightarrow> pending_complete \<Rightarrow> WalkScreenState \<Rightarrow> WalkScreenState" where
  "completeSettled ok c s =
     (let reward = (if ok then calcLandscapeItems (pc_finalSteps c) else 1)
      in s\<lparr>ws_landscapeItems := pc_landscapeItems c + reward,
           ws_walkSteps := pc_finalSteps c\<rparr>)"

datatype walk_event =
    SensorReading int
  | PressStartWalk "WalkQuiz option"
  | PressChoice string
  | ResultTimerFires
  | CompleteWalkSettles bool
  | PressEndWalk
  | PressGoHome

text \<open>
  The handler of an event. A button acts only where it is rendered: the start button in
  the idle phase, the quiz card in the quiz and result phases when
  \<open>quizList[currentQuizIdx]\<close> exists, the end button in the walking phase, the home
  button in the complete phase. A timer or a request acts only when one is in flight.
  The speech of a quiz, the progress animation and the periodic report of the steps to
  the server change none of the fields modelled and are left out.
\<close>

fun handle_event :: "walk_event \<Rightarrow> WalkScreenState \<Rightarrow> WalkScreenState" where
  "handle_event (SensorReading n) s = s\<lparr>ws_steps := n\<rparr>"
| "handle_event (PressStartWalk fetched) s =
     (if ws_phase s = PhIdle then handleStartWalk fetched s else s)"
| "handle_event (PressChoice c) s =
     (if (ws_phase s = PhQuiz \<or> ws_phase s = PhResult)
         \<and> ws_currentQuizIdx s < length (ws_quizList s)
      then handleSelectChoice c s else s)"
| "handle_event ResultTimerFires s =
     (if ws_resultTimers s = 0 then s else resultTimeout s)"
| "handle_event (CompleteWalkSettles ok) s =
     (case ws_completions s of
        [] \<Rightarrow> s
      | c # cs \<Rightarrow> completeSettled ok c (s\<lparr>ws_completions := cs\<rparr>))"
| "handle_event PressEndWalk s =
     (if ws_phase s = PhWalking then handleWalkComplete s (ws_sessionSteps s) s else s)"
| "handle_event PressGoHome s =
     (if ws_phase s = PhComplete
      then s\<lparr>ws_phase := PhIdle, ws_sessionSteps := 0, ws_correctCount := 0\<rparr>
      else s)"

definition walk_step :: "walk_event \<Rightarrow> WalkScreenState \<Rightarrow> WalkScreenState option" where
  "walk_step e s = settle 8 (handle_event e s)"

fun walk_run :: "WalkScreenState \<Rightarrow> walk_event list \<Rightarrow> WalkScreenState option" where
  "walk_run s [] = Some s"
| "walk_run s (e # es) =
     (case walk_step e s of None \<Rightarrow> None | Some s' \<Rightarrow> walk_run s' es)"

text \<open>The screen at its first render, with the app store's initial values.\<close>

definition newWalkScreen :: WalkScreenState where
  "newWalkScreen =
     \<lparr> ws_steps = 0, ws_landscapeItems = 0, ws_walkSteps = 0, ws_walkGoal = 5000,
       ws_phase = PhIdle, ws_sessionSteps = 0, ws_startSteps = 0, ws_quizList = [],
       ws_currentQuizIdx = 0, ws_selectedChoice = None, ws_lastQuizCorrect = None,
       ws_correctCount = 0, ws_resultTimers = 0, ws_completions = [],
       ws_stepDeps = None, ws_quizDeps = None \<rparr>"

text \<open>
  A session on the walk screen. The sensor reads 12000 when the walk starts (the quiz
  request fails, so the local quizzes are used). At 500 session steps a quiz appears;
  the walker answers it at 4990 session steps, reaches 5010 before the result timer
  fires, and the completion request succeeds; then the result timer fires, and the
  second completion request succeeds.
\<close>

definition regrant_trace :: "walk_event list" where
  "regrant_trace =
     [SensorReading 12000, PressStartWalk None, SensorReading 12500, SensorReading 16990,
      PressChoice ''Seoul'', SensorReading 17010, CompleteWalkSettles True,
      ResultTimerFires, CompleteWalkSettles True]"

section \<open>The cafe tab (app/(tabs)/cafe.tsx)\<close>

datatype GamePhase = Ready | Ordering | Distracted | Choosing | Feedback | Result

text \<open>The signal the speech collaborator ends an utterance with.\<close>

datatype tts_signal = TtsDone | TtsError

text \<open>
  The two callbacks that the component passes to its \<open>speak\<close> helper: the one of
  \<open>startRound\<close> (after the order) and the one of \<open>showDistractorOverlay\<close> (after the
  distracting line).
\<close>

datatype cafe_callback = AfterOrder | AfterDistractor

definition TOTAL_ROUNDS :: nat where "TOTAL_ROUNDS = 3"

text \<open>A generated round, as far as the game's logic reads it.\<close>

record Round =
  rd_correctItemId :: string
  rd_choiceIds :: "string list"

text \<open>The closure of the 1800 ms timer set by \<open>selectMenu\<close>.\<close>

record feedback_timer =
  ft_currentRound :: nat
  ft_rounds :: "Round list"
  ft_sessionCorrect :: nat
  ft_correct :: bool

text \<open>
  The component with the store. \<open>ct_utterance\<close> is the utterance in flight, if any,
  with the \<open>onDone\<close> callback that \<open>speak\<close> was given for it (\<open>speak\<close> passes
  no \<open>onError\<close> option to \<open>Speech.speak\<close>).
\<close>

record CafeTab =
  ct_phase :: GamePhase
  ct_currentRound :: nat
  ct_rounds :: "Round list"
  ct_selectedId :: "string option"
  ct_sessionCorrect :: nat
  ct_showDistractor :: bool
  ct_isSpeaking :: bool
  ct_utterance :: "cafe_callback option option"
  ct_timers :: "feedback_timer list"
  ct_store :: GameState

definition speak :: "cafe_callback option \<Rightarrow> CafeTab \<Rightarrow> CafeTab" where
  "speak onDone s = s\<lparr>ct_isSpeaking := True, ct_utterance := Some onDone\<rparr>"

definition startRound :: "CafeTab \<Rightarrow> CafeTab" where
  "startRound s = speak (Some AfterOrder) (s\<lparr>ct_selectedId := None, ct_showDistractor := False\<rparr>)"

definition startGame :: "Round list \<Rightarrow> CafeTab \<Rightarrow> CafeTab" where
  "startGame newRounds s =
     startRound
       (s\<lparr>ct_rounds := newRounds, ct_currentRound := 0, ct_selectedId := None,
          ct_sessionCorrect := 0, ct_store := resetCafeSession (ct_store s),
          ct_phase := Ordering\<rparr>)"

definition showDistractorOverlay :: "CafeTab \<Rightarrow> CafeTab" where
  "showDistractorOverlay s = speak (Some AfterDistractor) (s\<lparr>ct_showDistractor := True\<rparr>)"

text \<open>
  The end of the utterance in flight. On \<open>TtsDone\<close> the \<open>onDone\<close> option runs: it
  clears the speaking flag and calls the callback of \<open>speak\<close> (the fade-out that
  precedes the change to the choosing phase is taken as done at once). On \<open>TtsError\<close>
  the utterance is over and nothing was registered to run.
\<close>

definition speech_ends :: "tts_signal \<Rightarrow> CafeTab \<Rightarrow> CafeTab" where
  "speech_ends sig s =
     (case ct_utterance s of
        None \<Rightarrow> s
      | Some onDone \<Rightarrow>
          (case sig of
             TtsError \<Rightarrow> s\<lparr>ct_utterance := None\<rparr>
           | TtsDone \<Rightarrow>
               (let s1 = s\<lparr>ct_utterance := None, ct_isSpeaking := False\<rparr>
                in case onDone of
                     None \<Rightarrow> s1
                   | Some AfterOrder \<Rightarrow> showDistractorOverlay (s1\<lparr>ct_phase := Distracted\<rparr>)
                   | Some AfterDistractor \<Rightarrow>
                       s1\<lparr>ct_showDistractor := False, ct_phase := Choosing\<rparr>)))"

definition selectMenu :: "string \<Rightarrow> CafeTab \<Rightarrow> CafeTab" where
  "selectMenu itemId s =
     (if ct_phase s \<noteq> Choosing \<or> ct_selectedId s \<noteq> None then s
      else
        (let round = ct_rounds s ! ct_currentRound s;
             correct = (itemId = rd_correctItemId round);
             s1 = s\<lparr>ct_selectedId := Some itemId\<rparr>;
             s2 = (if correct
                   then speak None
                          (s1\<lparr>ct_sessionCorrect := ct_sessionCorrect s1 + 1,
                              ct_store := addCafeScore 10 (ct_store s1)\<rparr>)
                   else speak None s1)
         in s2\<lparr>ct_phase := Feedback,
               ct_timers := ct_timers s2 @
                 [\<lparr> ft_currentRound = ct_currentRound s, ft_rounds = ct_rounds s,
                    ft_sessionCorrect = ct_sessionCorrect s, ft_correct = correct \<rparr>]\<rparr>))"

definition feedbackTimeout :: "feedback_timer \<Rightarrow> CafeTab \<Rightarrow> CafeTab" where
  "feedbackTimeout t s =
     (let nextRound = ft_currentRound t + 1
      in if nextRound < TOTAL_ROUNDS
         then startRound (s\<lparr>ct_currentRound := nextRound, ct_phase := Ordering\<rparr>)
         else
           (let e = (int (ft_sessionCorrect t) + (if ft_correct t then 1 else 0)) * 10
            in s\<lparr>ct_phase := Result, ct_utterance := None,
                 ct_store := addVillageExp e (ct_store s)\<rparr>))"

datatype cafe_event =
    PressStart "Round list"
  | SpeechEnds tts_signal
  | PressMenu string
  | FeedbackTimerFires

text \<open>
  The start button is rendered on the ready and result screens only, the menu buttons in
  the choosing and feedback phases only and when \<open>rounds[currentRound]\<close> exists; a
  timer fires only when one is set.
\<close>

fun cafe_step :: "cafe_event \<Rightarrow> CafeTab \<Rightarrow> CafeTab" where
  "cafe_step (PressStart newRounds) s =
     (if ct_phase s = Ready \<or> ct_phase s = Result then startGame newRounds s else s)"
| "cafe_step (SpeechEnds sig) s = speech_ends sig s"
| "cafe_step (PressMenu itemId) s =
     (if (ct_phase s = Choosing \<or> ct_phase s = Feedback)
         \<and> ct_currentRound s < length (ct_rounds s)
      then selectMenu itemId s else s)"
| "cafe_step FeedbackTimerFires s =
     (case ct_timers s of [] \<Rightarrow> s | t # ts \<Rightarrow> feedbackTimeout t (s\<lparr>ct_timers := ts\<rparr>))"

definition cafe_run :: "CafeTab \<Rightarrow> cafe_event list \<Rightarrow> CafeTab" where
  "cafe_run s es = foldl (\<lambda>s e. cafe_step e s) s es"

definition newCafeTab :: CafeTab where
  "newCafeTab =
     \<lparr> ct_phase = Ready, ct_currentRound = 0, ct_rounds = [], ct_selectedId = None,
       ct_sessionCorrect = 0, ct_showDistractor = False, ct_isSpeaking = False,
       ct_utterance = None, ct_timers = [], ct_store = initialState \<rparr>"

text \<open>Three rounds, as \<open>generateRound\<close> may produce them.\<close>

definition sample_rounds :: "Round list" where
  "sample_rounds =
     [ \<lparr> rd_correctItemId = ''cafe_latte'',
         rd_choiceIds = [''lemon_ade'', ''cafe_latte'', ''cappuccino'', ''hot_chocolate''] \<rparr>,
       \<lparr> rd_correctItemId = ''ice_americano'',
         rd_choiceIds = [''ice_americano'', ''green_tea_latte'', ''cafe_latte'', ''lemon_ade''] \<rparr>,
       \<lparr> rd_correctItemId = ''hot_chocolate'',
         rd_choiceIds = [''strawberry_ade'', ''hot_americano'', ''hot_chocolate'', ''cappuccino''] \<rparr> ]"

section \<open>The cafe screen (src/screens/CafeScreen.tsx): its speech playback\<close>

datatype CafePhase =
    CafeIdle | CafeCustomer | CafeOrdering | CafeDistractor | CafeSelecting
  | CafeFeedback | CafeComplete

text \<open>The two utterances whose end the screen waits for, and the two timers they set.\<close>

datatype screen_utterance = OrderSpeech | DistractorSpeech

datatype screen_timer = ShowDistractorTimer | SelectingTimer

record CafeScreenState =
  cs_phase :: CafePhase
  cs_hasSession :: bool
  cs_showDistractor :: bool
  cs_isSpeaking :: bool
  cs_utterance :: "screen_utterance option"
  cs_timers :: "screen_timer list"

definition handleListen :: "CafeScreenState \<Rightarrow> CafeScreenState" where
  "handleListen s =
     (if \<not> cs_hasSession s then s
      else s\<lparr>cs_phase := CafeOrdering, cs_isSpeaking := True, cs_utterance := Some OrderSpeech\<rparr>)"

definition showDistractorDialog :: "CafeScreenState \<Rightarrow> CafeScreenState" where
  "showDistractorDialog s =
     (if \<not> cs_hasSession s then s
      else s\<lparr>cs_showDistractor := True, cs_phase := CafeDistractor,
             cs_utterance := Some DistractorSpeech\<rparr>)"

text \<open>The \<open>onDone\<close> and \<open>onError\<close> options given to \<open>Speech.speak\<close>.\<close>

definition screen_speech_ends :: "tts_signal \<Rightarrow> CafeScreenState \<Rightarrow> CafeScreenState" where
  "screen_speech_ends sig s =
     (case cs_utterance s of
        None \<Rightarrow> s
      | Some OrderSpeech \<Rightarrow>
          (case sig of
             TtsDone \<Rightarrow>
               s\<lparr>cs_utterance := None, cs_isSpeaking := False,
                 cs_timers := cs_timers s @ [ShowDistractorTimer]\<rparr>
           | TtsError \<Rightarrow>
               showDistractorDialog (s\<lparr>cs_utterance := None, cs_isSpeaking := False\<rparr>))
      | Some DistractorSpeech \<Rightarrow>
          (case sig of
             TtsDone \<Rightarrow> s\<lparr>cs_utterance := None, cs_timers := cs_timers s @ [SelectingTimer]\<rparr>
           | TtsError \<Rightarrow> s\<lparr>cs_utterance := None, cs_phase := CafeSelecting\<rparr>))"

text \<open>The oldest timer of the screen fires.\<close>

definition screen_timer_fires :: "CafeScreenState \<Rightarrow> CafeScreenState" where
  "screen_timer_fires s =
     (case cs_timers s of
        [] \<Rightarrow> s
      | ShowDistractorTimer # ts \<Rightarrow> showDistractorDialog (s\<lparr>cs_timers := ts\<rparr>)
      | SelectingTimer # ts \<Rightarrow> s\<lparr>cs_timers := ts, cs_phase := CafeSelecting\<rparr>)"

section \<open>Properties of the rounding to doubles\<close>

lemma pow2_powr: "pow2 e = 2 powr real_of_int e"
proof (cases "0 \<le> e")
  case True
  then have "real_of_int e = real (nat e)" by simp
  then have "2 powr real_of_int e = (2::real) ^ nat e" by (simp only: powr_realpow)
  then show ?thesis using True by (simp add: pow2_def)
next
  case False
  then have "real_of_int e = - real (nat (- e))" by simp
  then have "2 powr real_of_int e = 1 / (2::real) ^ nat (- e)"
    by (simp only: powr_minus powr_realpow) (simp add: inverse_eq_divide)
  then show ?thesis using False by (simp add: pow2_def)
qed

lemma pow2_pos: "0 < pow2 e"
  by (simp add: pow2_powr)

lemma pow2_add: "pow2 (a + b) = pow2 a * pow2 b"
  by (simp add: pow2_powr powr_add)

lemma pow2_le_iff: "pow2 a \<le> pow2 b \<longleftrightarrow> a \<le> b"
  by (simp add: pow2_powr)

lemma pow2_less_iff: "pow2 a < pow2 b \<longleftrightarrow> a < b"
  by (simp add: pow2_powr)

lemma pow2_0: "pow2 0 = 1" and pow2_1: "pow2 1 = 2"
  by (simp_all add: pow2_def)

lemma pow2_Suc: "pow2 (e + 1) = 2 * pow2 e"
  by (simp add: pow2_add pow2_1)

lemma pow2_pred: "pow2 (e - 1) = pow2 e / 2"
  using pow2_Suc [of "e - 1"] by simp


lemma binade_up_bounds:
  "1 \<le> x \<Longrightarrow>
   0 \<le> binade_up n x \<and> pow2 (binade_up n x) \<le> x
   \<and> (x < 2 ^ (n + 1) \<longrightarrow> x < pow2 (binade_up n x + 1))"
proof (induction n arbitrary: x)
  case 0
  then show ?case by (simp add: pow2_0 pow2_1)
next
  case (Suc n)
  show ?case
  proof (cases "2 \<le> x")
    case True
    then have h: "1 \<le> x / 2" by simp
    note IH = Suc.IH [OF h]
    have e: "binade_up (Suc n) x = binade_up n (x / 2) + 1" using True by simp
    have a: "pow2 (binade_up n (x / 2) + 1) \<le> x" using IH by (simp add: pow2_Suc)
    have b: "x < pow2 (binade_up n (x / 2) + 1 + 1)" if "x < 2 ^ (Suc n + 1)"
    proof -
      from that have "x / 2 < 2 ^ (n + 1)" by simp
      with IH have "x / 2 < pow2 (binade_up n (x / 2) + 1)" by blast
      moreover have "pow2 (binade_up n (x / 2) + 1 + 1) = 2 * pow2 (binade_up n (x / 2) + 1)"
        by (rule pow2_Suc)
      ultimately show ?thesis by simp
    qed
    have z: "0 \<le> binade_up n (x / 2) + 1" using IH by simp
    show ?thesis unfolding e using z a b by blast
  next
    case False
    with Suc.prems show ?thesis by (simp add: pow2_0 pow2_1)
  qed
qed

lemma binade_down_ge_1: "1 \<le> y \<Longrightarrow> binade_down n y = 0"
  by (cases n) simp_all

lemma binade_down_bounds:
  "0 \<le> x \<Longrightarrow> x < 1 \<Longrightarrow>
   - int n \<le> binade_down n x \<and> binade_down n x \<le> 0 \<and> x < pow2 (binade_down n x + 1)
   \<and> (pow2 (- int n) \<le> x \<longrightarrow> pow2 (binade_down n x) \<le> x)"
proof (induction n arbitrary: x)
  case 0
  then show ?case by (simp add: pow2_0 pow2_1)
next
  case (Suc n)
  have e: "binade_down (Suc n) x = binade_down n (2 * x) - 1" using Suc.prems by simp
  show ?case
  proof (cases "2 * x < 1")
    case True
    have h: "0 \<le> 2 * x" using Suc.prems by simp
    note IH = Suc.IH [OF h True]
    have a: "x < pow2 (binade_down n (2 * x) - 1 + 1)" using IH by (simp add: pow2_Suc)
    have "- int (Suc n) = - int n - 1" by simp
    then have p: "pow2 (- int (Suc n)) = pow2 (- int n) / 2" by (simp only: pow2_pred)
    have b: "pow2 (binade_down n (2 * x) - 1) \<le> x" if "pow2 (- int (Suc n)) \<le> x"
    proof -
      from that p have "pow2 (- int n) \<le> 2 * x" by simp
      with IH have "pow2 (binade_down n (2 * x)) \<le> 2 * x" by blast
      then show ?thesis by (simp add: pow2_pred)
    qed
    have c: "- int (Suc n) \<le> binade_down n (2 * x) - 1" "binade_down n (2 * x) - 1 \<le> 0"
      using IH by simp_all
    show ?thesis unfolding e using a b c by blast
  next
    case False
    then have z: "binade_down n (2 * x) = 0" by (simp add: binade_down_ge_1)
    have "pow2 (- 1) = 1 / 2" by (simp add: pow2_def)
    then show ?thesis using False Suc.prems e z by (simp add: pow2_0)
  qed
qed

text \<open>The exponent of a number, where it is not capped.\<close>

lemma exponent_bounds:
  "- 1022 \<le> exponent x"
  "pow2 (- 1022) \<le> \<bar>x\<bar> \<Longrightarrow> pow2 (exponent x) \<le> \<bar>x\<bar>"
  "\<bar>x\<bar> < 2 ^ 1025 \<Longrightarrow> \<bar>x\<bar> < pow2 (exponent x + 1)"
  "\<bar>x\<bar> < 1 \<Longrightarrow> exponent x \<le> 0"
  "1 \<le> \<bar>x\<bar> \<Longrightarrow> 0 \<le> exponent x \<and> pow2 (exponent x) \<le> \<bar>x\<bar>"
proof -
  have up: "1 \<le> \<bar>x\<bar> \<Longrightarrow> exponent x = binade_up 1024 \<bar>x\<bar>"
    and down: "\<bar>x\<bar> < 1 \<Longrightarrow> exponent x = binade_down 1022 \<bar>x\<bar>"
    by (simp_all add: exponent_def)
  note u = binade_up_bounds [of "\<bar>x\<bar>" 1024]
  note d = binade_down_bounds [of "\<bar>x\<bar>" 1022]
  show "- 1022 \<le> exponent x"
    using up u down d by (cases "1 \<le> \<bar>x\<bar>") auto
  show "pow2 (- 1022) \<le> \<bar>x\<bar> \<Longrightarrow> pow2 (exponent x) \<le> \<bar>x\<bar>"
    using up u down d by (cases "1 \<le> \<bar>x\<bar>") auto
  show "\<bar>x\<bar> < 2 ^ 1025 \<Longrightarrow> \<bar>x\<bar> < pow2 (exponent x + 1)"
    using up u down d by (cases "1 \<le> \<bar>x\<bar>") auto
  show "\<bar>x\<bar> < 1 \<Longrightarrow> exponent x \<le> 0"
    using down d by auto
  show "1 \<le> \<bar>x\<bar> \<Longrightarrow> 0 \<le> exponent x \<and> pow2 (exponent x) \<le> \<bar>x\<bar>"
    using up u by auto
qed




lemma rne_near: "\<bar>real_of_int (rne y) - y\<bar> \<le> 1 / 2"
proof -
  have "real_of_int \<lfloor>y\<rfloor> \<le> y" "y < real_of_int \<lfloor>y\<rfloor> + 1" by linarith+
  then show ?thesis by (auto simp: rne_def Let_def)
qed

lemma rne_ge: "real_of_int m \<le> y \<Longrightarrow> m \<le> rne y"
proof -
  assume "real_of_int m \<le> y"
  then have "m \<le> \<lfloor>y\<rfloor>" by (simp add: le_floor_iff)
  then show ?thesis by (auto simp: rne_def Let_def)
qed

lemma fl_near_ulp: "\<bar>fl x - x\<bar> \<le> pow2 (exponent x - 53)"
proof -
  define ulp where "ulp = pow2 (exponent x - 52)"
  have pos: "0 < ulp" by (simp add: ulp_def pow2_pos)
  have "fl x - x = ulp * (real_of_int (rne (x / ulp)) - x / ulp)"
    using pos by (simp add: fl_def ulp_def [symmetric] Let_def algebra_simps)
  then have "\<bar>fl x - x\<bar> = ulp * \<bar>real_of_int (rne (x / ulp)) - x / ulp\<bar>"
    using pos by (simp add: abs_mult)
  also have "\<dots> \<le> ulp * (1 / 2)"
    using pos rne_near [of "x / ulp"] by (intro mult_left_mono) simp_all
  also have "\<dots> = pow2 (exponent x - 53)"
    using pow2_pred [of "exponent x - 52"] by (simp add: ulp_def)
  finally show ?thesis .
qed

lemma fl_near: "\<bar>x\<bar> < 128 \<Longrightarrow> \<bar>fl x - x\<bar> \<le> 1 / 2 ^ 47"
proof -
  assume a: "\<bar>x\<bar> < 128"
  have "exponent x < 7"
  proof (cases "1 \<le> \<bar>x\<bar>")
    case True
    then have "pow2 (exponent x) \<le> \<bar>x\<bar>" by (simp add: exponent_bounds(5))
    moreover have "pow2 7 = 128" by (simp add: pow2_def)
    ultimately have "pow2 (exponent x) < pow2 7" using a by simp
    then show ?thesis by (simp add: pow2_less_iff)
  next
    case False
    then have "exponent x \<le> 0" by (intro exponent_bounds(4)) simp
    then show ?thesis by simp
  qed
  then have "pow2 (exponent x - 53) \<le> pow2 (- 47)" by (simp add: pow2_le_iff)
  moreover have "pow2 (- 47) = 1 / 2 ^ 47" by (simp add: pow2_def)
  ultimately show ?thesis using fl_near_ulp [of x] by simp
qed


lemma fl_0: "fl 0 = 0"
  by (simp add: fl_def Let_def rne_def)


lemma fl_nonneg: "0 \<le> x \<Longrightarrow> 0 \<le> fl x"
proof -
  assume a: "0 \<le> x"
  have pos: "0 < pow2 (exponent x - 52)" by (rule pow2_pos)
  then have "real_of_int 0 \<le> x / pow2 (exponent x - 52)" using a by simp
  then have "0 \<le> rne (x / pow2 (exponent x - 52))" by (rule rne_ge)
  then show ?thesis using pos by (simp add: fl_def Let_def)
qed

text \<open>
  A product of a double below 1 (at most \<open>1 - 1 / 2 ^ 53\<close>) with a positive integer
  is rounded to a double below that integer.
\<close>

lemma fl_below:
  assumes "0 \<le> x" "x \<le> real n * (1 - 1 / 2 ^ 53)" "0 < n"
  shows "fl x < real n"
proof (cases "pow2 (- 1022) \<le> \<bar>x\<bar>")
  case True
  then have "pow2 (exponent x) \<le> \<bar>x\<bar>" by (rule exponent_bounds(2))
  then have e: "pow2 (exponent x) \<le> x" using assms(1) by simp
  have "pow2 (exponent x - 53) = pow2 (exponent x) * pow2 (- 53)"
    using pow2_add [of "exponent x" "- 53"] by simp
  moreover have "pow2 (- 53) = 1 / 2 ^ 53" by (simp add: pow2_def)
  ultimately have "pow2 (exponent x - 53) \<le> x * (1 / 2 ^ 53)"
    using e by (simp add: mult_right_mono)
  moreover have "fl x - x \<le> pow2 (exponent x - 53)"
    using fl_near_ulp [of x] by (rule abs_le_D1)
  ultimately have "fl x \<le> x * (1 + 1 / 2 ^ 53)" by (simp add: algebra_simps)
  also have "\<dots> \<le> (real n * (1 - 1 / 2 ^ 53)) * (1 + 1 / 2 ^ 53)"
    using assms(2) by (intro mult_right_mono) simp_all
  also have "\<dots> = real n * ((1 - 1 / 2 ^ 53) * (1 + 1 / 2 ^ 53))" by simp
  also have "\<dots> < real n * 1"
    using assms(3) by (intro mult_strict_left_mono) simp_all
  finally show ?thesis by simp
next
  case False
  then have small: "x < pow2 (- 1022)" using assms(1) by simp
  have "pow2 (- 1022) \<le> pow2 (- 1)" by (simp add: pow2_le_iff)
  moreover have "pow2 (- 1) = 1 / 2" by (simp add: pow2_def)
  ultimately have half: "x < 1 / 2" using small by simp
  then have "\<bar>x\<bar> < 128" using assms(1) by simp
  then have "\<bar>fl x - x\<bar> \<le> 1 / 2 ^ 47" by (rule fl_near)
  then have "fl x - x \<le> 1 / 2 ^ 47" by (rule abs_le_D1)
  then have "fl x < 1" using half by simp
  moreover have "1 \<le> real n" using assms(3) by simp
  ultimately show ?thesis by simp
qed



section \<open>Properties of the level engine and the ledger\<close>

lemma threshold_or_zero_values:
  "threshold_or_zero 0 = Finite 0" "threshold_or_zero (Suc 0) = Finite 100"
  "threshold_or_zero 1 = Finite 100"
  "threshold_or_zero 2 = Finite 250" "threshold_or_zero 3 = Finite 500"
  "threshold_or_zero 4 = Finite 900" "threshold_or_zero 5 = Finite 1500"
  "threshold_or_zero 6 = Finite 2400" "threshold_or_zero 7 = Finite 3700"
  "threshold_or_zero 8 = Finite 5500" "threshold_or_zero 9 = Finite 8000"
  by (simp_all add: threshold_or_zero_def LEVEL_EXP_THRESHOLDS_def)

text \<open>The loop unrolled from its last iteration back to its first.\<close>

lemma loop_exit: "calcVillageLevel_loop e 11 level = level"
  by (subst calcVillageLevel_loop.simps) simp

lemma loop_from_10:
  "calcVillageLevel_loop e 10 level = (if 8000 \<le> e then 10 else level)"
  by (subst calcVillageLevel_loop.simps) (simp add: threshold_or_zero_values loop_exit)

lemma loop_from_9:
  "calcVillageLevel_loop e 9 level =
     (if 8000 \<le> e then 10 else if 5500 \<le> e then 9 else level)"
  by (subst calcVillageLevel_loop.simps) (simp add: threshold_or_zero_values loop_from_10)

lemma loop_from_8:
  "calcVillageLevel_loop e 8 level =
     (if 8000 \<le> e then 10 else if 5500 \<le> e then 9 else if 3700 \<le> e then 8 else level)"
  by (subst calcVillageLevel_loop.simps) (simp add: threshold_or_zero_values loop_from_9)

lemma loop_from_7:
  "calcVillageLevel_loop e 7 level =
     (if 8000 \<le> e then 10 else if 5500 \<le> e then 9 else if 3700 \<le> e then 8
      else if 2400 \<le> e then 7 else level)"
  by (subst calcVillageLevel_loop.simps) (simp add: threshold_or_zero_values loop_from_8)

lemma loop_from_6:
  "calcVillageLevel_loop e 6 level =
     (if 8000 \<le> e then 10 else if 5500 \<le> e then 9 else if 3700 \<le> e then 8
      else if 2400 \<le> e then 7 else if 1500 \<le> e then 6 else level)"
  by (subst calcVillageLevel_loop.simps) (simp add: threshold_or_zero_values loop_from_7)

lemma loop_from_5:
  "calcVillageLevel_loop e 5 level =
     (if 8000 \<le> e then 10 else if 5500 \<le> e then 9 else if 3700 \<le> e then 8
      else if 2400 \<le> e then 7 else if 1500 \<le> e then 6 else if 900 \<le> e then 5 else level)"
  by (subst calcVillageLevel_loop.simps) (simp add: threshold_or_zero_values loop_from_6)

lemma loop_from_4:
  "calcVillageLevel_loop e 4 level =
     (if 8000 \<le> e then 10 else if 5500 \<le> e then 9 else if 3700 \<le> e then 8
      else if 2400 \<le> e then 7 else if 1500 \<le> e then 6 else if 900 \<le> e then 5
      else if 500 \<le> e then 4 else level)"
  by (subst calcVillageLevel_loop.simps) (simp add: threshold_or_zero_values loop_from_5)

lemma loop_from_3:
  "calcVillageLevel_loop e 3 level =
     (if 8000 \<le> e then 10 else if 5500 \<le> e then 9 else if 3700 \<le> e then 8
      else if 2400 \<le> e then 7 else if 1500 \<le> e then 6 else if 900 \<le> e then 5
      else if 500 \<le> e then 4 else if 250 \<le> e then 3 else level)"
  by (subst calcVillageLevel_loop.simps) (simp add: threshold_or_zero_values loop_from_4)

lemma loop_from_2:
  "calcVillageLevel_loop e 2 level =
     (if 8000 \<le> e then 10 else if 5500 \<le> e then 9 else if 3700 \<le> e then 8
      else if 2400 \<le> e then 7 else if 1500 \<le> e then 6 else if 900 \<le> e then 5
      else if 500 \<le> e then 4 else if 250 \<le> e then 3 else if 100 \<le> e then 2 else level)"
  by (subst calcVillageLevel_loop.simps) (simp add: threshold_or_zero_values loop_from_3)

lemma loop_from_2_Suc:
  "calcVillageLevel_loop e (Suc (Suc 0)) level = calcVillageLevel_loop e 2 level"
  by (simp add: numeral_2_eq_2)

lemma calcVillageLevel_closed:
  "calcVillageLevel e =
     (if 8000 \<le> e then 10 else if 5500 \<le> e then 9 else if 3700 \<le> e then 8
      else if 2400 \<le> e then 7 else if 1500 \<le> e then 6 else if 900 \<le> e then 5
      else if 500 \<le> e then 4 else if 250 \<le> e then 3 else if 100 \<le> e then 2 else 1)"
  unfolding calcVillageLevel_def
  by (subst calcVillageLevel_loop.simps)
     (simp add: threshold_or_zero_values loop_from_2_Suc loop_from_2)

text \<open>
  C3. The level engine is monotone and bounded: for all experience values
  \<open>e1 \<le> e2\<close> the level of \<open>e1\<close> is at most the level of \<open>e2\<close>; the level of 0 is 1;
  and every level lies between 1 and 10.
\<close>

theorem level_monotone_bounded:
  "(\<forall>e1 e2. e1 \<le> e2 \<longrightarrow> calcVillageLevel e1 \<le> calcVillageLevel e2)
   \<and> calcVillageLevel 0 = 1
   \<and> (\<forall>x. 1 \<le> calcVillageLevel x \<and> calcVillageLevel x \<le> 10)"
proof (intro conjI allI impI)
  fix e1 e2 :: int
  assume "e1 \<le> e2"
  then show "calcVillageLevel e1 \<le> calcVillageLevel e2"
    by (simp add: calcVillageLevel_closed)
next
  show "calcVillageLevel 0 = 1" by (simp add: calcVillageLevel_closed)
next
  fix x show "1 \<le> calcVillageLevel x" by (simp add: calcVillageLevel_closed)
next
  fix x show "calcVillageLevel x \<le> 10" by (simp add: calcVillageLevel_def)
qed

theorem level_monotone_bounded_witness:
  "(99::int) \<le> 100 \<and> calcVillageLevel 99 \<le> calcVillageLevel 100
   \<and> calcVillageLevel 99 = 1 \<and> calcVillageLevel 100 = 2 \<and> calcVillageLevel 8000 = 10"
  using level_monotone_bounded by (simp add: calcVillageLevel_closed)

lemma ledger_action_defs:
  "setSteps n s = s\<lparr>steps := n\<rparr>"
  "addQuizRecord q s = s\<lparr>quizHistory := quizHistory s @ [q]\<rparr>"
  "setDietScore score foods s = s\<lparr>dietScore := score, lastAnalyzedFoods := foods\<rparr>"
  "addFertilizer a s = s\<lparr>fertilizer := fertilizer s + a\<rparr>"
  "useFertilizer a s = s\<lparr>fertilizer := max 0 (fertilizer s - a)\<rparr>"
  "addLandscapeItems a s = s\<lparr>landscapeItems := landscapeItems s + a\<rparr>"
  "addResident r s = s\<lparr>residents := residents s @ [r]\<rparr>"
  "addCafeScore pts s = s\<lparr>cafeScore := cafeScore s + pts, cafeStreak := cafeStreak s + 1\<rparr>"
  "resetCafeSession s = s\<lparr>cafeStreak := 0\<rparr>"
  "incrementStreak s = s\<lparr>streakDays := streakDays s + 1\<rparr>"
  by (simp_all add: setSteps_def addQuizRecord_def setDietScore_def addFertilizer_def
        useFertilizer_def addLandscapeItems_def addResident_def addCafeScore_def
        resetCafeSession_def incrementStreak_def)

lemma apply_op_level:
  "villageLevel s = calcVillageLevel (villageExp s) \<Longrightarrow>
   villageLevel (apply_op s x) = calcVillageLevel (villageExp (apply_op s x))"
  by (cases x)
     (simp_all add: ledger_action_defs unlockBuilding_def addVillageExp_def
        resetDailyStats_def Let_def)

lemma run_ops_level:
  "villageLevel s = calcVillageLevel (villageExp s) \<Longrightarrow>
   villageLevel (run_ops s ops) = calcVillageLevel (villageExp (run_ops s ops))"
  unfolding run_ops_def
  by (induction ops arbitrary: s) (simp_all add: apply_op_level)

text \<open>
  C4. After every sequence of ledger operations applied to the initial state, the stored
  village level is the level computed from the stored experience: it is never stale.
\<close>

theorem level_never_stale:
  "villageLevel (run_ops initialState ops) =
     calcVillageLevel (villageExp (run_ops initialState ops))"
  by (rule run_ops_level) (simp add: initialState_def calcVillageLevel_closed)

theorem level_never_stale_witness:
  "villageExp (run_ops initialState [AddVillageExp 120, ResetDailyStats, AddVillageExp 150]) = 270
   \<and> villageLevel (run_ops initialState [AddVillageExp 120, ResetDailyStats, AddVillageExp 150]) = 3
   \<and> calcVillageLevel 270 = 3"
  using level_never_stale [of "[AddVillageExp 120, ResetDailyStats, AddVillageExp 150]"]
  by (simp add: run_ops_def addVillageExp_def resetDailyStats_def initialState_def
        calcVillageLevel_closed Let_def)

lemma apply_op_nonneg:
  "0 \<le> op_amount x \<Longrightarrow> 0 \<le> fertilizer s \<and> 0 \<le> landscapeItems s \<Longrightarrow>
   0 \<le> fertilizer (apply_op s x) \<and> 0 \<le> landscapeItems (apply_op s x)"
  by (cases x)
     (simp_all add: ledger_action_defs unlockBuilding_def addVillageExp_def
        resetDailyStats_def Let_def)

lemma run_ops_nonneg:
  "\<forall>x \<in> set ops. 0 \<le> op_amount x \<Longrightarrow> 0 \<le> fertilizer s \<and> 0 \<le> landscapeItems s \<Longrightarrow>
   0 \<le> fertilizer (run_ops s ops) \<and> 0 \<le> landscapeItems (run_ops s ops)"
  unfolding run_ops_def
proof (induction ops arbitrary: s)
  case Nil
  then show ?case by simp
next
  case (Cons x ops)
  have "0 \<le> fertilizer (apply_op s x) \<and> 0 \<le> landscapeItems (apply_op s x)"
    using Cons.prems by (intro apply_op_nonneg) simp_all
  then show ?case using Cons.IH [of "apply_op s x"] Cons.prems(1) by simp
qed

text \<open>
  C8. Resource counters never go negative: after every sequence of ledger operations
  with non-negative amounts from the initial state, fertilizer and landscape items are
  at least 0; spending clamps at zero, and from 2 units of fertilizer, spending 5
  leaves 0.
\<close>

theorem resources_never_negative:
  "((\<forall>x \<in> set ops. 0 \<le> op_amount x) \<longrightarrow>
      0 \<le> fertilizer (run_ops initialState ops)
      \<and> 0 \<le> landscapeItems (run_ops initialState ops))
   \<and> fertilizer (useFertilizer a s) = max 0 (fertilizer s - a)
   \<and> (fertilizer s = 2 \<longrightarrow> fertilizer (useFertilizer 5 s) = 0)"
proof (intro conjI impI)
  assume "\<forall>x \<in> set ops. 0 \<le> op_amount x"
  then have "0 \<le> fertilizer (run_ops initialState ops)
      \<and> 0 \<le> landscapeItems (run_ops initialState ops)"
    by (rule run_ops_nonneg) (simp add: initialState_def)
  then show "0 \<le> fertilizer (run_ops initialState ops)"
    and "0 \<le> landscapeItems (run_ops initialState ops)" by simp_all
next
  show "fertilizer (useFertilizer a s) = max 0 (fertilizer s - a)"
    by (simp add: useFertilizer_def)
next
  assume "fertilizer s = 2"
  then show "fertilizer (useFertilizer 5 s) = 0" by (simp add: useFertilizer_def)
qed

theorem resources_never_negative_witness:
  "0 \<le> op_amount (AddFertilizer 2) \<and> 0 \<le> op_amount (UseFertilizer 5)
   \<and> 0 \<le> op_amount (AddLandscapeItems 1)
   \<and> fertilizer (run_ops initialState [AddFertilizer 2, UseFertilizer 5, AddLandscapeItems 1]) = 0
   \<and> landscapeItems (run_ops initialState [AddFertilizer 2, UseFertilizer 5, AddLandscapeItems 1]) = 1
   \<and> fertilizer (addFertilizer 2 initialState) = 2
   \<and> fertilizer (useFertilizer 5 (addFertilizer 2 initialState)) = 0"
  using resources_never_negative
    [of "[AddFertilizer 2, UseFertilizer 5, AddLandscapeItems 1]" 5 "addFertilizer 2 initialState"]
  by (simp add: run_ops_def ledger_action_defs initialState_def)

text \<open>
  C10. The daily reset is scoped to the daily statistics: steps, quiz history, diet
  score, analysed foods, cafe score and cafe streak go back to their initial values, and
  village experience and level, fertilizer, landscape items, residents, buildings,
  streak days and the walk goal keep their values.
\<close>

theorem daily_reset_frame:
  "steps (resetDailyStats s) = 0 \<and> quizHistory (resetDailyStats s) = []
   \<and> dietScore (resetDailyStats s) = 0 \<and> lastAnalyzedFoods (resetDailyStats s) = []
   \<and> cafeScore (resetDailyStats s) = 0 \<and> cafeStreak (resetDailyStats s) = 0
   \<and> villageExp (resetDailyStats s) = villageExp s
   \<and> villageLevel (resetDailyStats s) = villageLevel s
   \<and> fertilizer (resetDailyStats s) = fertilizer s
   \<and> landscapeItems (resetDailyStats s) = landscapeItems s
   \<and> residents (resetDailyStats s) = residents s
   \<and> buildings (resetDailyStats s) = buildings s
   \<and> streakDays (resetDailyStats s) = streakDays s
   \<and> walkGoal (resetDailyStats s) = walkGoal s
   \<and> resetDailyStats s =
       s\<lparr>steps := steps initialState, quizHistory := quizHistory initialState,
         dietScore := dietScore initialState, lastAnalyzedFoods := lastAnalyzedFoods initialState,
         cafeScore := cafeScore initialState, cafeStreak := cafeStreak initialState\<rparr>"
  by (simp add: resetDailyStats_def initialState_def)

theorem daily_reset_frame_witness:
  "steps (resetDailyStats (addFertilizer 3 (addVillageExp 120 (setSteps 4200 initialState)))) = 0
   \<and> villageExp (resetDailyStats (addFertilizer 3 (addVillageExp 120 (setSteps 4200 initialState)))) = 120
   \<and> villageLevel (resetDailyStats (addFertilizer 3 (addVillageExp 120 (setSteps 4200 initialState)))) = 2
   \<and> fertilizer (resetDailyStats (addFertilizer 3 (addVillageExp 120 (setSteps 4200 initialState)))) = 3"
  using daily_reset_frame [of "addFertilizer 3 (addVillageExp 120 (setSteps 4200 initialState))"]
  by (simp add: ledger_action_defs addVillageExp_def initialState_def calcVillageLevel_closed Let_def)

section \<open>Properties of the reward calculation and the health score\<close>

text \<open>
  C6. The reward mappings are step functions with boundaries inclusive at the lower
  end: the fertilizer reward is 5 from score 8, 3 from 6, 2 from 4, 1 from 2 and 0
  below; the landscape reward is 3 from 10000 steps, 2 from 7000, 1 from 5000 and 0
  below; with the values of the spec at 7.9, 8.0, 4999, 5000 and 10000.
\<close>

theorem reward_step_functions:
  "(8 \<le> s \<longrightarrow> calcFertilizer s = 5)
   \<and> (6 \<le> s \<and> s < 8 \<longrightarrow> calcFertilizer s = 3)
   \<and> (4 \<le> s \<and> s < 6 \<longrightarrow> calcFertilizer s = 2)
   \<and> (2 \<le> s \<and> s < 4 \<longrightarrow> calcFertilizer s = 1)
   \<and> (s < 2 \<longrightarrow> calcFertilizer s = 0)
   \<and> (10000 \<le> n \<longrightarrow> calcLandscapeItems n = 3)
   \<and> (7000 \<le> n \<and> n < 10000 \<longrightarrow> calcLandscapeItems n = 2)
   \<and> (5000 \<le> n \<and> n < 7000 \<longrightarrow> calcLandscapeItems n = 1)
   \<and> (n < 5000 \<longrightarrow> calcLandscapeItems n = 0)
   \<and> calcFertilizer (79 / 10) = 3 \<and> calcFertilizer 8 = 5
   \<and> calcLandscapeItems 4999 = 0 \<and> calcLandscapeItems 5000 = 1 \<and> calcLandscapeItems 10000 = 3"
  by (simp add: calcFertilizer_def calcLandscapeItems_def)

theorem reward_step_functions_witness:
  "(6::real) \<le> 7 \<and> (7::real) < 8 \<and> calcFertilizer 7 = 3
   \<and> (7000::int) \<le> 7500 \<and> (7500::int) < 10000 \<and> calcLandscapeItems 7500 = 2"
  using reward_step_functions [of 7 7500] by simp










section \<open>Properties of the milestone scheduler\<close>

lemma handleStepUpdate_fired:
  "handleStepUpdate n p = (p', fired, payload) \<Longrightarrow>
   (let c = (n div 1000) * 1000; fire = (lastQuizMilestone p < c \<and> 0 < c)
    in p_quizTrigger payload = fire
       \<and> fired = (if fire then Some c else None)
       \<and> lastQuizMilestone p' = (if fire then c else lastQuizMilestone p)
       \<and> usedQuizIds p' = usedQuizIds p)"
  by (auto simp: handleStepUpdate_def QUIZ_INTERVAL_def Let_def split: if_splits)

lemma observe_all_increasing:
  "observe_all p ns = (p', ms) \<Longrightarrow>
   sorted_wrt (<) ms \<and> (\<forall>m \<in> set ms. lastQuizMilestone p < m \<and> 0 < m \<and> m mod 1000 = 0)
   \<and> lastQuizMilestone p \<le> lastQuizMilestone p'"
proof (induction ns arbitrary: p p' ms)
  case Nil
  then show ?case by simp
next
  case (Cons n ns)
  obtain p1 fired payload where h: "watchStepCount_callback n p = (p1, fired, payload)"
    by (cases "watchStepCount_callback n p") auto
  obtain p2 rest where r: "observe_all p1 ns = (p2, rest)"
    by (cases "observe_all p1 ns") auto
  from Cons.prems h r have ms: "ms = (case fired of None \<Rightarrow> [] | Some m \<Rightarrow> [m]) @ rest" and p': "p' = p2"
    by simp_all
  note IH = Cons.IH [OF r]
  from h have hs: "handleStepUpdate n (p\<lparr>currentSteps := n\<rparr>) = (p1, fired, payload)"
    by (simp add: watchStepCount_callback_def)
  note f = handleStepUpdate_fired [OF hs, unfolded Let_def, simplified]
  show ?case
  proof (cases fired)
    case None
    with f have "lastQuizMilestone p1 = lastQuizMilestone p" by (auto split: if_splits)
    with IH ms p' None show ?thesis by simp
  next
    case (Some m)
    with f have m: "m = (n div 1000) * 1000" "lastQuizMilestone p < m" "0 < m"
      "lastQuizMilestone p1 = m" by (auto split: if_splits)
    have "m mod 1000 = 0" using m(1) by simp
    with IH ms p' Some m show ?thesis by auto
  qed
qed

lemma observe_999:
  "observe_all newPedometerService (replicate k 999) =
     (newPedometerService\<lparr>currentSteps := (if k = 0 then 0 else 999)\<rparr>, [])"
proof -
  have "observe_all (newPedometerService\<lparr>currentSteps := c\<rparr>) (replicate k 999) =
          (newPedometerService\<lparr>currentSteps := (if k = 0 then c else 999)\<rparr>, [])" for c
    by (induction k arbitrary: c)
       (simp_all add: watchStepCount_callback_def handleStepUpdate_def
          newPedometerService_def QUIZ_INTERVAL_def Let_def)
  from this [of 0] show ?thesis by (simp add: newPedometerService_def)
qed

text \<open>
  C1. One observation fires a milestone iff \<open>candidate = (steps div 1000) * 1000\<close> is
  above the last fired milestone and above 0, and then the last fired milestone becomes
  the candidate. Over any sequence of observations the fired milestones are strictly
  increasing multiples of 1000, so each boundary fires at most once; the same
  reading delivered twice in a row fires at most once, observing 999 repeatedly fires
  nothing, 1000 twice fires once, and 2600 after 1000 fires 2000 only.
\<close>

theorem milestone_fires_once_per_boundary:
  "(case handleStepUpdate n p of
      (p', fired, payload) \<Rightarrow>
        (let c = (n div 1000) * 1000; fire = (lastQuizMilestone p < c \<and> 0 < c)
         in p_quizTrigger payload = fire
            \<and> fired = (if fire then Some c else None)
            \<and> lastQuizMilestone p' = (if fire then c else lastQuizMilestone p)))
   \<and> sorted_wrt (<) (snd (observe_all p ns))
   \<and> (\<forall>m \<in> set (snd (observe_all p ns)).
         lastQuizMilestone p < m \<and> 0 < m \<and> m mod 1000 = 0)
   \<and> length (snd (observe_all p [n, n])) \<le> 1
   \<and> snd (observe_all newPedometerService (replicate k 999)) = []
   \<and> snd (observe_all newPedometerService [1000, 1000]) = [1000]
   \<and> snd (observe_all (newPedometerService\<lparr>lastQuizMilestone := 1000\<rparr>) [2600]) = [2000]"
proof (intro conjI)
  show "case handleStepUpdate n p of
      (p', fired, payload) \<Rightarrow>
        (let c = (n div 1000) * 1000; fire = (lastQuizMilestone p < c \<and> 0 < c)
         in p_quizTrigger payload = fire
            \<and> fired = (if fire then Some c else None)
            \<and> lastQuizMilestone p' = (if fire then c else lastQuizMilestone p))"
    using handleStepUpdate_fired [of n p]
    by (cases "handleStepUpdate n p") (simp add: Let_def)
next
  obtain p' ms where o: "observe_all p ns = (p', ms)" by (cases "observe_all p ns") auto
  from observe_all_increasing [OF o] o
  show "sorted_wrt (<) (snd (observe_all p ns))"
    and "\<forall>m \<in> set (snd (observe_all p ns)).
           lastQuizMilestone p < m \<and> 0 < m \<and> m mod 1000 = 0"
    by simp_all
next
  show "length (snd (observe_all p [n, n])) \<le> 1"
    by (simp add: watchStepCount_callback_def handleStepUpdate_def QUIZ_INTERVAL_def Let_def)
next
  show "snd (observe_all newPedometerService (replicate k 999)) = []"
    by (simp add: observe_999)
next
  show "snd (observe_all newPedometerService [1000, 1000]) = [1000]"
    by (simp add: watchStepCount_callback_def handleStepUpdate_def newPedometerService_def
          QUIZ_INTERVAL_def Let_def)
next
  show "snd (observe_all (newPedometerService\<lparr>lastQuizMilestone := 1000\<rparr>) [2600]) = [2000]"
    by (simp add: watchStepCount_callback_def handleStepUpdate_def newPedometerService_def
          QUIZ_INTERVAL_def Let_def)
qed

theorem milestone_fires_once_per_boundary_witness:
  "snd (observe_all newPedometerService [400, 999, 1000, 1000, 1600, 2600, 2600, 5200]) = [1000, 2000, 5000]
   \<and> sorted_wrt (<) [1000, 2000, 5000 :: int]
   \<and> snd (observe_all (newPedometerService\<lparr>lastQuizMilestone := 1000\<rparr>) [2600]) = [2000]"
proof -
  have e: "snd (observe_all newPedometerService [400, 999, 1000, 1000, 1600, 2600, 2600, 5200]) = [1000, 2000, 5000]"
    by (simp add: watchStepCount_callback_def handleStepUpdate_def newPedometerService_def
          QUIZ_INTERVAL_def Let_def)
  show ?thesis
    using milestone_fires_once_per_boundary
      [of 2600 newPedometerService "[400, 999, 1000, 1000, 1600, 2600, 2600, 5200]" 3]
    unfolding e by simp
qed

section \<open>Properties of the quiz bank\<close>

lemma catalog_ids_distinct: "distinct (map wq_id FALLBACK_QUIZZES)"
  by (simp add: FALLBACK_QUIZZES_def)

lemma random_index_in_range:
  assumes "0 \<le> u" "u \<le> 1 - 1 / 2 ^ 53" "0 < n"
  shows "nat \<lfloor>fl (u * real n)\<rfloor> < n"
proof -
  have "0 \<le> u * real n" using assms by simp
  then have lo: "0 \<le> fl (u * real n)" by (rule fl_nonneg)
  have "u * real n \<le> real n * (1 - 1 / 2 ^ 53)"
    using assms by (simp add: mult.commute mult_left_mono)
  with \<open>0 \<le> u * real n\<close> have "fl (u * real n) < real n"
    using assms(3) by (intro fl_below)
  then have "\<lfloor>fl (u * real n)\<rfloor> < int n" by (simp add: floor_less_iff)
  moreover have "0 \<le> \<lfloor>fl (u * real n)\<rfloor>" using lo by simp
  ultimately show ?thesis by linarith
qed

lemma filter_remove_one:
  "distinct (map f xs) \<Longrightarrow>
   length (filter P xs) \<le> Suc (length (filter (\<lambda>q. f q \<noteq> i \<and> P q) xs))"
proof (induction xs)
  case Nil
  then show ?case by simp
next
  case (Cons x xs)
  show ?case
  proof (cases "f x = i")
    case True
    with Cons.prems have "i \<notin> f ` set xs" by simp
    then have "\<forall>q \<in> set xs. f q \<noteq> i" by blast
    then have "filter (\<lambda>q. f q \<noteq> i \<and> P q) xs = filter P xs"
      by (intro filter_cong) auto
    with True show ?thesis by simp
  next
    case False
    with Cons show ?thesis by simp
  qed
qed

text \<open>A draw from a bank that is not exhausted gives an unused quiz and records it.\<close>

lemma getRandomQuiz_fresh:
  assumes u: "0 \<le> u" "u \<le> 1 - 1 / 2 ^ 53"
    and av: "filter (\<lambda>q. wq_id q \<notin> usedQuizIds p) FALLBACK_QUIZZES \<noteq> []"
    and g: "getRandomQuiz u p = (q, p')"
  shows "q \<in> set FALLBACK_QUIZZES" "wq_id q \<notin> usedQuizIds p"
    "usedQuizIds p' = insert (wq_id q) (usedQuizIds p)"
proof -
  let ?av = "filter (\<lambda>q. wq_id q \<notin> usedQuizIds p) FALLBACK_QUIZZES"
  from av have "0 < length ?av" by simp
  with u have "nat \<lfloor>fl (u * real (length ?av))\<rfloor> < length ?av"
    by (rule random_index_in_range)
  then have m: "?av ! nat \<lfloor>fl (u * real (length ?av))\<rfloor> \<in> set ?av" by (rule nth_mem)
  from g av have q: "q = ?av ! nat \<lfloor>fl (u * real (length ?av))\<rfloor>"
    by (auto simp: getRandomQuiz_def Let_def)
  from g av have "p' = p\<lparr>usedQuizIds :=
      insert (wq_id (?av ! nat \<lfloor>fl (u * real (length ?av))\<rfloor>)) (usedQuizIds p)\<rparr>"
    by (auto simp: getRandomQuiz_def Let_def)
  with q have p': "p' = p\<lparr>usedQuizIds := insert (wq_id q) (usedQuizIds p)\<rparr>" by simp
  from m q show "q \<in> set FALLBACK_QUIZZES" "wq_id q \<notin> usedQuizIds p" by simp_all
  from p' show "usedQuizIds p' = insert (wq_id q) (usedQuizIds p)" by simp
qed

lemma draw_all_distinct:
  assumes "\<forall>u \<in> set us. 0 \<le> u \<and> u \<le> 1 - 1 / 2 ^ 53"
    and "length us \<le> length (filter (\<lambda>q. wq_id q \<notin> usedQuizIds p) FALLBACK_QUIZZES)"
    and "draw_all us p = (qs, p')"
  shows "distinct (map wq_id qs) \<and> set qs \<subseteq> set FALLBACK_QUIZZES
         \<and> wq_id ` set qs \<inter> usedQuizIds p = {}
         \<and> usedQuizIds p' = usedQuizIds p \<union> wq_id ` set qs \<and> length qs = length us"
  using assms
proof (induction us arbitrary: p qs p')
  case Nil
  then show ?case by simp
next
  case (Cons u us)
  obtain q p1 where g: "getRandomQuiz u p = (q, p1)" by (cases "getRandomQuiz u p") auto
  obtain rest p2 where r: "draw_all us p1 = (rest, p2)" by (cases "draw_all us p1") auto
  from Cons.prems(3) g r have qs: "qs = q # rest" and p': "p' = p2" by simp_all
  from Cons.prems(1) have u: "0 \<le> u" "u \<le> 1 - 1 / 2 ^ 53" by simp_all
  from Cons.prems(2) have av: "filter (\<lambda>q. wq_id q \<notin> usedQuizIds p) FALLBACK_QUIZZES \<noteq> []"
    by auto
  note f = getRandomQuiz_fresh [OF u av g]
  have "length (filter (\<lambda>q. wq_id q \<notin> usedQuizIds p) FALLBACK_QUIZZES)
        \<le> Suc (length (filter (\<lambda>x. wq_id x \<noteq> wq_id q \<and> wq_id x \<notin> usedQuizIds p)
                   FALLBACK_QUIZZES))"
    using catalog_ids_distinct by (rule filter_remove_one)
  with Cons.prems(2) f(3)
  have len: "length us \<le> length (filter (\<lambda>x. wq_id x \<notin> usedQuizIds p1) FALLBACK_QUIZZES)"
    by simp
  from Cons.prems(1) have us: "\<forall>u \<in> set us. 0 \<le> u \<and> u \<le> 1 - 1 / 2 ^ 53" by simp
  note IH = Cons.IH [OF us len r]
  from IH f qs p' show ?case by auto
qed

text \<open>
  As many draws as the catalogue has quizzes, from a new service, with random doubles in
  \<open>[0, 1)\<close>: no id is drawn twice, and every quiz is drawn.
\<close>

lemma draws_from_fresh_distinct:
  assumes a: "\<forall>u \<in> set us. 0 \<le> u \<and> u \<le> 1 - 1 / 2 ^ 53" and l: "length us = length FALLBACK_QUIZZES"
  shows "distinct (map wq_id (fst (draw_all us newPedometerService)))
   \<and> set (fst (draw_all us newPedometerService)) = set FALLBACK_QUIZZES
   \<and> usedQuizIds (snd (draw_all us newPedometerService)) = wq_id ` set FALLBACK_QUIZZES"
proof -
  obtain qs p' where d: "draw_all us newPedometerService = (qs, p')"
    by (cases "draw_all us newPedometerService") auto
  have "length us
        \<le> length (filter (\<lambda>q. wq_id q \<notin> usedQuizIds newPedometerService) FALLBACK_QUIZZES)"
    using l by (simp add: newPedometerService_def)
  from draw_all_distinct [OF a this d]
  have r: "distinct (map wq_id qs)" "set qs \<subseteq> set FALLBACK_QUIZZES"
    "usedQuizIds p' = wq_id ` set qs" "length qs = length us"
    by (simp_all add: newPedometerService_def)
  have "distinct qs" using r(1) by (rule distinct_map [THEN iffD1, THEN conjunct1])
  then have "card (set qs) = length FALLBACK_QUIZZES" using r(4) l by (simp add: distinct_card)
  moreover have "card (set FALLBACK_QUIZZES) \<le> length FALLBACK_QUIZZES" by (rule card_length)
  ultimately have "set qs = set FALLBACK_QUIZZES"
    using r(2) by (intro card_seteq) simp_all
  with r d show ?thesis by simp
qed

lemma exhausted_used:
  "usedQuizIds exhausted = {''q8'', ''q7'', ''q6'', ''q5'', ''q4'', ''q3'', ''q2'', ''q1''}"
  unfolding exhausted_def
  by (simp add: getRandomQuiz_def FALLBACK_QUIZZES_def newPedometerService_def fl_0)

text \<open>
  C5. Eight draws from a new service give eight distinct quizzes
  (\<open>draws_from_fresh_distinct\<close>), and the draw on an exhausted bank clears the used
  ids and never throws. But that draw does not pick at random from the catalogue: for
  every random number it returns the first quiz, and it does not record it as used, so
  the next draw can return the same quiz again.
\<close>

theorem quiz_wrap_draw_fixed_and_unmarked:
  "usedQuizIds exhausted = wq_id ` set FALLBACK_QUIZZES
   \<and> wq_id (fst (getRandomQuiz u exhausted)) = ''q1''
   \<and> usedQuizIds (snd (getRandomQuiz u exhausted)) = {}
   \<and> map wq_id (fst (draw_all [u, 0] exhausted)) = [''q1'', ''q1'']"
proof (intro conjI)
  show "usedQuizIds exhausted = wq_id ` set FALLBACK_QUIZZES"
    by (simp add: exhausted_used) (simp add: FALLBACK_QUIZZES_def insert_commute)
  show "wq_id (fst (getRandomQuiz u exhausted)) = ''q1''"
    by (simp add: getRandomQuiz_def exhausted_used fl_0) (simp add: FALLBACK_QUIZZES_def fl_0)
  show "usedQuizIds (snd (getRandomQuiz u exhausted)) = {}"
    by (simp add: getRandomQuiz_def exhausted_used fl_0) (simp add: FALLBACK_QUIZZES_def fl_0)
  show "map wq_id (fst (draw_all [u, 0] exhausted)) = [''q1'', ''q1'']"
    by (simp add: getRandomQuiz_def exhausted_used fl_0) (simp add: FALLBACK_QUIZZES_def fl_0)
qed

section \<open>Properties of the walk sessions\<close>

text \<open>
  On the walk tab the reward is guarded by \<open>rewardGivenRef\<close>: in a session, the first
  reading of 5000 steps or more adds one landscape item, and no other reading adds any.
\<close>

lemma triggerQuiz_frame:
  "wt_store (triggerQuiz u s) = wt_store s"
  "wt_rewardGiven (triggerQuiz u s) = wt_rewardGiven s"
  "wt_subscribed (triggerQuiz u s) = wt_subscribed s"
  "wt_alerts (triggerQuiz u s) = wt_alerts s"
  by (simp_all add: triggerQuiz_def split: prod.splits)

lemma handleStepUpdate_goalReached:
  "handleStepUpdate n p = (p', fired, payload) \<Longrightarrow>
   p_goalReached payload = (5000 \<le> n) \<and> p_steps payload = n"
  by (auto simp: handleStepUpdate_def REWARD_MILESTONE_def Let_def split: if_splits)

lemma sensorTick_reward:
  assumes "wt_subscribed s"
  shows "landscapeItems (wt_store (sensorTick n u s)) =
           landscapeItems (wt_store s) + (if 5000 \<le> n \<and> \<not> wt_rewardGiven s then 1 else 0)"
    and "wt_rewardGiven (sensorTick n u s) = (wt_rewardGiven s \<or> 5000 \<le> n)"
    and "wt_subscribed (sensorTick n u s)"
    and "wt_alerts (sensorTick n u s) =
           wt_alerts s + (if 5000 \<le> n \<and> \<not> wt_rewardGiven s then 1 else 0)"
proof -
  obtain p' fired payload
    where w: "watchStepCount_callback n (wt_pedometer s) = (p', fired, payload)"
    by (cases "watchStepCount_callback n (wt_pedometer s)") auto
  then have g: "p_goalReached payload = (5000 \<le> n)"
    using handleStepUpdate_goalReached by (simp add: watchStepCount_callback_def)
  define s2 where "s2 = (case fired of None \<Rightarrow> s\<lparr>wt_pedometer := p'\<rparr>
                         | Some m \<Rightarrow> triggerQuiz u (s\<lparr>wt_pedometer := p'\<rparr>))"
  have fr: "wt_store s2 = wt_store s" "wt_rewardGiven s2 = wt_rewardGiven s"
    "wt_subscribed s2 = wt_subscribed s" "wt_alerts s2 = wt_alerts s"
    by (simp_all add: s2_def triggerQuiz_frame split: option.splits)
  have t: "sensorTick n u s = stepCallback payload s2"
    using assms w by (simp add: sensorTick_def s2_def Let_def)
  show "landscapeItems (wt_store (sensorTick n u s)) =
           landscapeItems (wt_store s) + (if 5000 \<le> n \<and> \<not> wt_rewardGiven s then 1 else 0)"
    by (simp add: t stepCallback_def Let_def g fr setSteps_def addLandscapeItems_def)
  show "wt_rewardGiven (sensorTick n u s) = (wt_rewardGiven s \<or> 5000 \<le> n)"
    by (auto simp: t stepCallback_def Let_def g fr)
  show "wt_subscribed (sensorTick n u s)"
    using assms by (simp add: t stepCallback_def Let_def fr)
  show "wt_alerts (sensorTick n u s) =
           wt_alerts s + (if 5000 \<le> n \<and> \<not> wt_rewardGiven s then 1 else 0)"
    by (simp add: t stepCallback_def Let_def g fr)
qed

lemma run_ticks_reward:
  "wt_subscribed s \<Longrightarrow>
   landscapeItems (wt_store (run_ticks s ticks)) =
     landscapeItems (wt_store s)
     + (if \<not> wt_rewardGiven s \<and> (\<exists>t \<in> set ticks. 5000 \<le> fst t) then 1 else 0)"
proof (induction ticks arbitrary: s)
  case Nil
  then show ?case by simp
next
  case (Cons t ticks)
  obtain n u where t: "t = (n, u)" by (cases t)
  note st = sensorTick_reward [OF Cons.prems, of n u]
  from Cons.IH [OF st(3)] st(1,2) show ?case
    by (auto simp: t)
qed

lemma walk_tab_reward_once:
  assumes "wt_available s"
  shows "landscapeItems (wt_store (run_ticks (startTracking s) ticks)) =
           landscapeItems (wt_store s) + (if \<exists>t \<in> set ticks. 5000 \<le> fst t then 1 else 0)"
  using assms run_ticks_reward [of "startTracking s" ticks]
  by (simp add: startTracking_def)

lemma walk_tab_reward_at_first_goal_tick:
  assumes "wt_available s" "\<forall>t \<in> set pre. fst t < 5000" "5000 \<le> n"
  shows "landscapeItems (wt_store (run_ticks (startTracking s) pre)) = landscapeItems (wt_store s)"
    and "landscapeItems (wt_store (run_ticks (startTracking s) (pre @ [(n, u)]))) =
           landscapeItems (wt_store s) + 1"
    and "landscapeItems (wt_store (run_ticks (startTracking s) (pre @ (n, u) # post))) =
           landscapeItems (wt_store s) + 1"
  using assms by (auto simp: walk_tab_reward_once)

lemma walk_screen_complete_absorbs_readings:
  assumes "ws_phase s = PhComplete" "\<not> effects_pending s"
  shows "\<exists>s'. walk_step (SensorReading n) s = Some s' \<and> ws_phase s' = PhComplete
           \<and> ws_completions s' = ws_completions s \<and> ws_landscapeItems s' = ws_landscapeItems s"
  using assms
  by (simp add: walk_step_def eval_nat_numeral effects_pending_def render_pass_def
        stepEffect_def quizEffect_def Let_def)

text \<open>
  C2. On the walk screen the reward is guarded by the phase only. The session of
  \<open>regrant_trace\<close> reaches the goal once, in the result phase of a quiz, and the
  reward is granted (one landscape item, phase complete); the result timer, which is
  not cancelled, then puts the phase back to walking, the effect runs again on the same
  reading, and the reward is granted a second time.
\<close>

theorem walk_screen_regrants:
  "map_option (\<lambda>s. (ws_phase s, ws_sessionSteps s, ws_landscapeItems s))
      (walk_run newWalkScreen (take 7 regrant_trace)) = Some (PhComplete, 5010, 1)
   \<and> map_option (\<lambda>s. (ws_phase s, ws_sessionSteps s, ws_landscapeItems s))
      (walk_run newWalkScreen regrant_trace) = Some (PhComplete, 5010, 2)"
  by code_simp

section \<open>Properties of the cafe sessions\<close>

lemma cafe_tab_stalled_step:
  assumes "ct_utterance s = None" "ct_phase s = Ordering \<or> ct_phase s = Distracted" "ct_timers s = []"
  shows "cafe_step e s = s"
  using assms by (cases e) (auto simp: speech_ends_def selectMenu_def)

lemma cafe_tab_stalled_run:
  assumes "ct_utterance s = None" "ct_phase s = Ordering \<or> ct_phase s = Distracted" "ct_timers s = []"
  shows "cafe_run s es = s"
  unfolding cafe_run_def using assms
  by (induction es) (simp_all add: cafe_tab_stalled_step)

lemma cafe_tab_error_stalls:
  assumes "ct_utterance s = Some cb" "ct_phase s = Ordering \<or> ct_phase s = Distracted" "ct_timers s = []"
  shows "cafe_run (speech_ends TtsError s) es = speech_ends TtsError s"
    and "ct_phase (speech_ends TtsError s) = ct_phase s"
proof -
  from assms have e: "speech_ends TtsError s = s\<lparr>ct_utterance := None\<rparr>"
    by (simp add: speech_ends_def)
  show "cafe_run (speech_ends TtsError s) es = speech_ends TtsError s"
    unfolding e using assms by (intro cafe_tab_stalled_run) simp_all
  show "ct_phase (speech_ends TtsError s) = ct_phase s" by (simp add: e)
qed

lemma cafe_tab_done_advances:
  "ct_utterance s = Some (Some AfterOrder) \<Longrightarrow> ct_phase (speech_ends TtsDone s) = Distracted"
  "ct_utterance s = Some (Some AfterDistractor) \<Longrightarrow> ct_phase (speech_ends TtsDone s) = Choosing"
  by (simp_all add: speech_ends_def showDistractorOverlay_def speak_def)

lemma cafe_screen_error_as_done:
  "cs_utterance s = Some u \<Longrightarrow> cs_timers s = [] \<Longrightarrow>
   screen_timer_fires (screen_speech_ends TtsDone s) = screen_speech_ends TtsError s"
  by (cases s; cases u)
     (simp_all add: screen_speech_ends_def screen_timer_fires_def showDistractorDialog_def)

text \<open>
  C9. On the cafe tab a speech error does not act as a completion. A started game waits
  for the order speech in the ordering phase: its completion leads to the distracted
  phase, its error leaves the phase at ordering, where no later event changes it; and an
  error of the distracting speech leaves the phase at distracted, where its completion
  leads to choosing.
\<close>

theorem cafe_tab_speech_error_stalls:
  "ct_phase (cafe_run newCafeTab [PressStart sample_rounds]) = Ordering
   \<and> ct_utterance (cafe_run newCafeTab [PressStart sample_rounds]) = Some (Some AfterOrder)
   \<and> ct_phase (cafe_run newCafeTab [PressStart sample_rounds, SpeechEnds TtsDone]) = Distracted
   \<and> ct_phase (cafe_run newCafeTab [PressStart sample_rounds, SpeechEnds TtsError]) = Ordering
   \<and> ct_phase (cafe_run newCafeTab
        [PressStart sample_rounds, SpeechEnds TtsError, SpeechEnds TtsDone, PressMenu ''cafe_latte'',
         FeedbackTimerFires, PressStart sample_rounds]) = Ordering
   \<and> ct_phase (cafe_run newCafeTab
        [PressStart sample_rounds, SpeechEnds TtsDone, SpeechEnds TtsDone]) = Choosing
   \<and> ct_phase (cafe_run newCafeTab
        [PressStart sample_rounds, SpeechEnds TtsDone, SpeechEnds TtsError, SpeechEnds TtsDone,
         PressMenu ''cafe_latte'']) = Distracted"
  by (simp add: cafe_run_def newCafeTab_def startGame_def startRound_def speak_def
        speech_ends_def showDistractorOverlay_def selectMenu_def)

end
